theory Spec2Isabelle
  imports Complex_Main
begin

section \<open>Arrays and the numeric primitives the notebooks call\<close>

text \<open>
  The notebooks compute with \<^verbatim>\<open>jax.numpy\<close> arrays in double precision.  The
  embedding reads every float as a real number, so the theorems below are about the
  exact arithmetic the code describes, not about rounding.  An array carries its shape
  (what \<^verbatim>\<open>jnp.shape\<close> returns) and its entries in row-major order.
\<close>

datatype py_error = ValueError

record ndarray =
  shape :: "nat list"
  data :: "real list"

text \<open>\<^verbatim>\<open>jnp.cross\<close> of two 3-vectors.\<close>

definition cross :: "real list \<Rightarrow> real list \<Rightarrow> real list" where
  "cross a b =
     [a ! 1 * b ! 2 - a ! 2 * b ! 1,
      a ! 2 * b ! 0 - a ! 0 * b ! 2,
      a ! 0 * b ! 1 - a ! 1 * b ! 0]"

text \<open>\<^verbatim>\<open>jnp.linalg.norm\<close> of a vector: the Euclidean norm.\<close>

definition linalg_norm :: "real list \<Rightarrow> real" where
  "linalg_norm v = sqrt (sum_list (map (\<lambda>x. x * x) v))"

text \<open>\<^verbatim>\<open>X1.T @ X2\<close> on one-dimensional arrays: the inner product.\<close>

definition matmul1 :: "real list \<Rightarrow> real list \<Rightarrow> real" where
  "matmul1 a b = sum_list (map2 (*) a b)"

text \<open>
  \<^verbatim>\<open>jnp.arctan2 y x\<close>: the angle of the point \<open>(x, y)\<close>, in \<open>(-\<pi>, \<pi>]\<close>, with
  \<open>arctan2 0 0 = 0\<close>.
\<close>

definition arctan2 :: "real \<Rightarrow> real \<Rightarrow> real" where
  "arctan2 y x =
     (if 0 < x then arctan (y / x)
      else if x < 0 then (if 0 \<le> y then arctan (y / x) + pi else arctan (y / x) - pi)
      else if 0 < y then pi / 2
      else if y < 0 then - (pi / 2)
      else 0)"

section \<open>The great-circle distance of the geometry tutorial\<close>

text \<open>
  \<^verbatim>\<open>GreatCircleDistance.distance\<close> (docs/tutorials/geometry.ipynb): the guard
  compares the shapes of both arguments with \<^verbatim>\<open>(3,)\<close> and raises
  \<^verbatim>\<open>ValueError\<close>; otherwise the result is the arctangent of the norm of the
  cross product against the inner product.
\<close>

definition distance :: "ndarray \<Rightarrow> ndarray \<Rightarrow> py_error + real" where
  "distance X1 X2 =
     (if shape X1 \<noteq> [3] \<or> shape X2 \<noteq> [3] then Inl ValueError
      else Inr (arctan2 (linalg_norm (cross (data X1) (data X2)))
                        (matmul1 (data X1) (data X2))))"

text \<open>The 3-vector with the given entries.\<close>

definition vec3 :: "real \<Rightarrow> real \<Rightarrow> real \<Rightarrow> ndarray" where
  "vec3 x y z = \<lparr>shape = [3], data = [x, y, z]\<rparr>"

section \<open>The Matern-3/2 kernel of the multivariate tutorial\<close>

text \<open>
  docs/tutorials/multivariate.ipynb builds \<^verbatim>\<open>kernels.Matern32(scale)\<close> and
  \<^verbatim>\<open>kernels.Matern32()\<close> and compares
  \<^verbatim>\<open>kernel0(X / scale, X / scale)\<close> with \<^verbatim>\<open>kernel1(X, X)\<close>.  The kernel
  class itself (tinygp.kernels.Matern32) is not among the source files; what the
  tutorial says about it is the text of its opening warning: for kernels that depend on
  the absolute distance, such as Matern32, the argument of the kernel is
  \<^verbatim>\<open>r = jnp.sum(jnp.abs((x1 - x2) / scale))\<close>.
\<close>

text \<open>
  Modelled from the spec: the argument \<open>r\<close> of tinygp.kernels.Matern32, which is
  missing from the source files, written as the tutorial's warning gives it.  The two
  points are rows of the input array and have the same number of coordinates.
\<close>

definition Matern32_r :: "real \<Rightarrow> real list \<Rightarrow> real list \<Rightarrow> real" where
  "Matern32_r scale x1 x2 = sum_list (map (\<lambda>d. \<bar>d / scale\<bar>) (map2 (-) x1 x2))"

text \<open>
  Modelled from the spec: the evaluation of tinygp.kernels.Matern32 at two points.  The
  kernel is a function \<open>k\<close> of the argument \<open>r\<close> alone; the formula of \<open>k\<close> is
  in the missing library file too and stays a parameter.
\<close>

definition Matern32 :: "(real \<Rightarrow> real) \<Rightarrow> real \<Rightarrow> real list \<Rightarrow> real list \<Rightarrow> real" where
  "Matern32 k scale x1 x2 = k (Matern32_r scale x1 x2)"

text \<open>
  Modelled from the spec: \<^verbatim>\<open>kernels.Matern32()\<close>, the kernel built without a
  scale.  The default of the missing constructor is taken to be the unit scale, which is
  what the tutorial means by calling this kernel on \<^verbatim>\<open>X / scale\<close> the manual
  scaling of the input coordinates.
\<close>

definition Matern32_default :: "(real \<Rightarrow> real) \<Rightarrow> real list \<Rightarrow> real list \<Rightarrow> real" where
  "Matern32_default k = Matern32 k 1"

text \<open>
  Modelled from the spec: calling a kernel on two arrays of points (missing:
  tinygp.kernels.Kernel.__call__).  An array of shape \<^verbatim>\<open>(n, ndim)\<close> is the list
  of its \<open>n\<close> rows, and the result holds the kernel at every pair of rows.
\<close>

definition kernel_call ::
  "(real list \<Rightarrow> real list \<Rightarrow> real) \<Rightarrow> real list list \<Rightarrow> real list list \<Rightarrow> real list list" where
  "kernel_call ker X1 X2 = map (\<lambda>x1. map (\<lambda>x2. ker x1 x2) X2) X1"

text \<open>\<^verbatim>\<open>X / scale\<close> with a scalar \<open>scale\<close>: every entry is divided.\<close>

definition array_div :: "real list list \<Rightarrow> real \<Rightarrow> real list list" where
  "array_div X s = map (map (\<lambda>x. x / s)) X"

text \<open>The usual Matern-3/2 profile, a concrete \<open>k\<close> for the examples.\<close>

definition matern32_profile :: "real \<Rightarrow> real" where
  "matern32_profile r = (1 + sqrt 3 * r) * exp (- (sqrt 3 * r))"


section \<open>Structured representations of quasiseparable kernels\<close>

text \<open>
  The quasiseparable kernels and matrices that docs/tutorials/quasisep.ipynb uses
  (tinygp.kernels.quasisep, tinygp.solvers.quasisep) are not among the source files.
  This section models their data the way sections 3, 4.1 and 4.4 of the specification
  describe it.
\<close>

text \<open>
  Modelled from the spec: the per-position block of a quasiseparable term (missing: the
  quasiseparable matrix classes), "a tuple of small (rank-r) matrices/vectors (left
  factor, right factor, diagonal contribution, propagation matrix)".
\<close>

record block =
  left_factor :: "real list"
  right_factor :: "real list"
  diagonal :: real
  propagation :: "real list list"

text \<open>
  Modelled from the spec: the rank of a block, the size of its factors (glossary:
  "the size of the factor blocks per position").
\<close>

definition rank :: "block \<Rightarrow> nat" where
  "rank b = length (left_factor b)"

text \<open>
  Modelled from the spec: the linear algebra that the bilinear form of section 4.1
  needs: the inner product of two vectors and the product of a matrix, given as the list
  of its rows, with a vector.
\<close>

definition dot :: "real list \<Rightarrow> real list \<Rightarrow> real" where
  "dot u v = sum_list (map2 (*) u v)"

definition matvec :: "real list list \<Rightarrow> real list \<Rightarrow> real list" where
  "matvec A v = map (\<lambda>row. dot row v) A"

text \<open>
  Modelled from the spec: "an accumulated product of propagation matrices", applied to a
  vector one matrix at a time, the first matrix of the list first.
\<close>

definition propagate :: "real list list list \<Rightarrow> real list \<Rightarrow> real list" where
  "propagate As v = foldl (\<lambda>w A. matvec A w) v As"

text \<open>
  Modelled from the spec: the blocks "between j and i", read as the positions strictly
  between the two, in ascending order.
\<close>

definition between :: "block list \<Rightarrow> nat \<Rightarrow> nat \<Rightarrow> block list" where
  "between rep j i = map (\<lambda>k. rep ! k) [Suc j..<i]"

text \<open>
  Modelled from the spec: the entry below the diagonal, "a bilinear form of the left
  factor at i, an accumulated product of propagation matrices between j and i, and the
  right factor at j" (section 4.1), for \<open>j < i\<close>.
\<close>

definition lower_entry :: "block list \<Rightarrow> nat \<Rightarrow> nat \<Rightarrow> real" where
  "lower_entry rep i j =
     dot (left_factor (rep ! i))
         (propagate (map propagation (between rep j i)) (right_factor (rep ! j)))"

text \<open>
  Modelled from the spec: the covariance entry at \<open>(i, j)\<close> that a structured
  representation implies.  "Diagonal entries equal a separate diagonal term"; the matrix
  is symmetric, so the entry above the diagonal is the mirrored one below.  Both
  positions are positions of the representation.
\<close>

definition implied :: "block list \<Rightarrow> nat \<Rightarrow> nat \<Rightarrow> real" where
  "implied rep i j =
     (if i = j then diagonal (rep ! i)
      else if j < i then lower_entry rep i j
      else lower_entry rep j i)"

text \<open>
  Modelled from the spec: stacking two propagation matrices of sizes \<open>r1\<close> and
  \<open>r2\<close> into one of size \<open>r1 + r2\<close> ("concatenate/stack their rank blocks (rank
  adds)").
\<close>

definition block_diag :: "nat \<Rightarrow> nat \<Rightarrow> real list list \<Rightarrow> real list list \<Rightarrow> real list list" where
  "block_diag r1 r2 A B =
     map (\<lambda>row. row @ replicate r2 0) A @ map (\<lambda>row. replicate r1 0 @ row) B"

text \<open>
  Modelled from the spec: the tensor products of two vectors and of two matrices
  ("tensor-combine blocks (rank multiplies)").
\<close>

definition kron_vec :: "real list \<Rightarrow> real list \<Rightarrow> real list" where
  "kron_vec u v = concat (map (\<lambda>x. map (\<lambda>y. x * y) v) u)"

definition kron_mat :: "real list list \<Rightarrow> real list list \<Rightarrow> real list list" where
  "kron_mat A B = concat (map (\<lambda>rowA. map (\<lambda>rowB. kron_vec rowA rowB) B) A)"

text \<open>
  Modelled from the spec: the sum of two blocks (section 3, "Sum of two representations:
  concatenate/stack their rank blocks").
\<close>

definition sum_block :: "block \<Rightarrow> block \<Rightarrow> block" where
  "sum_block b1 b2 =
     \<lparr>left_factor = left_factor b1 @ left_factor b2,
      right_factor = right_factor b1 @ right_factor b2,
      diagonal = diagonal b1 + diagonal b2,
      propagation = block_diag (rank b1) (rank b2) (propagation b1) (propagation b2)\<rparr>"

text \<open>
  Modelled from the spec: the product of two blocks (section 3, "Product of two
  representations: tensor-combine blocks").
\<close>

definition product_block :: "block \<Rightarrow> block \<Rightarrow> block" where
  "product_block b1 b2 =
     \<lparr>left_factor = kron_vec (left_factor b1) (left_factor b2),
      right_factor = kron_vec (right_factor b1) (right_factor b2),
      diagonal = diagonal b1 * diagonal b2,
      propagation = kron_mat (propagation b1) (propagation b2)\<rparr>"

text \<open>
  Modelled from the spec: sum and product of two structured representations, position
  by position.
\<close>

definition sum_rep :: "block list \<Rightarrow> block list \<Rightarrow> block list" where
  "sum_rep rep1 rep2 = map2 sum_block rep1 rep2"

definition product_rep :: "block list \<Rightarrow> block list \<Rightarrow> block list" where
  "product_rep rep1 rep2 = map2 product_block rep1 rep2"

text \<open>
  Modelled from the spec: a block of rank \<open>r\<close> has factors of size \<open>r\<close> and a
  square propagation matrix of that size; a representation of rank \<open>r\<close> consists of
  such blocks ("a fixed-size block of rank-r factors").
\<close>

definition wf_block :: "nat \<Rightarrow> block \<Rightarrow> bool" where
  "wf_block r b \<longleftrightarrow>
     length (left_factor b) = r \<and> length (right_factor b) = r \<and>
     length (propagation b) = r \<and> list_all (\<lambda>row. length row = r) (propagation b)"

definition wf_rep :: "nat \<Rightarrow> block list \<Rightarrow> bool" where
  "wf_rep r rep \<longleftrightarrow> list_all (wf_block r) rep"

text \<open>
  Modelled from the spec: the terms of the kernel composition layer (section 4.4 and the
  design note on composition).  A primitive term exposes its closed-form covariance and
  its block at a position of the input sequence; sums and products combine terms.
\<close>

datatype qs_term =
  Primitive "real \<Rightarrow> real \<Rightarrow> real" "real list \<Rightarrow> nat \<Rightarrow> block"
  | Sum qs_term qs_term
  | Product qs_term qs_term

text \<open>
  Modelled from the spec: the structured representation of a term over an input
  sequence; "composition combines emitted blocks".
\<close>

fun represent :: "qs_term \<Rightarrow> real list \<Rightarrow> block list" where
  "represent (Primitive k e) xs = map (e xs) [0..<length xs]"
| "represent (Sum t1 t2) xs = sum_rep (represent t1 xs) (represent t2 xs)"
| "represent (Product t1 t2) xs = product_rep (represent t1 xs) (represent t2 xs)"

text \<open>
  Modelled from the spec: what makes a pair of a closed form \<open>k\<close> and a block emitter
  \<open>e\<close> a quasiseparable primitive term on the input sequence \<open>xs\<close>: the blocks have
  one rank, and the covariance they imply is the closed form at every pair of inputs.
\<close>

definition primitive_ok ::
  "(real \<Rightarrow> real \<Rightarrow> real) \<Rightarrow> (real list \<Rightarrow> nat \<Rightarrow> block) \<Rightarrow> real list \<Rightarrow> bool" where
  "primitive_ok k e xs \<longleftrightarrow>
     wf_rep (rank (e xs 0)) (represent (Primitive k e) xs) \<and>
     list_all (\<lambda>i. list_all (\<lambda>j. implied (represent (Primitive k e) xs) i j = k (xs ! i) (xs ! j))
                  [0..<length xs]) [0..<length xs]"

text \<open>
  Two primitive terms of rank one for the examples: the covariance \<open>min x y\<close> of a
  random walk and the exponential covariance with base one half.
\<close>

definition min_kernel :: "real \<Rightarrow> real \<Rightarrow> real" where
  "min_kernel x y = min x y"

definition min_blocks :: "real list \<Rightarrow> nat \<Rightarrow> block" where
  "min_blocks xs i =
     \<lparr>left_factor = [1], right_factor = [xs ! i], diagonal = xs ! i, propagation = [[1]]\<rparr>"

definition exp_kernel :: "real \<Rightarrow> real \<Rightarrow> real" where
  "exp_kernel x y = (1 / 2) powr \<bar>x - y\<bar>"

definition exp_blocks :: "real list \<Rightarrow> nat \<Rightarrow> block" where
  "exp_blocks xs i =
     \<lparr>left_factor = [(1 / 2) powr (xs ! i - xs ! (i - 1))], right_factor = [1], diagonal = 1,
      propagation = [[(1 / 2) powr (xs ! i - xs ! (i - 1))]]\<rparr>"

section \<open>Facts about the primitives\<close>

lemma linalg_norm_nonneg: "0 \<le> linalg_norm v"
  by (auto simp: linalg_norm_def intro!: sum_list_nonneg)

lemma arctan2_range_upper: "0 \<le> y \<Longrightarrow> 0 \<le> arctan2 y x \<and> arctan2 y x \<le> pi"
proof -
  assume y: "0 \<le> y"
  consider (pos) "0 < x" | (neg) "x < 0" | (zero) "x = 0" by linarith
  then show ?thesis
  proof cases
    case pos
    then have "0 \<le> y / x" using y by simp
    then have "0 \<le> arctan (y / x)" by (simp add: arctan_le_zero_iff)
    moreover have "arctan (y / x) < pi / 2" by (rule arctan_ubound)
    ultimately have "0 \<le> arctan (y / x) \<and> arctan (y / x) \<le> pi"
      using pi_gt_zero by linarith
    then show ?thesis using pos by (simp add: arctan2_def)
  next
    case neg
    then have "y / x \<le> 0" using y by (simp add: divide_nonneg_neg)
    then have "arctan (y / x) \<le> 0" by (simp add: arctan_le_zero_iff)
    moreover have "- (pi / 2) < arctan (y / x)" by (rule arctan_lbound)
    ultimately have "0 \<le> arctan (y / x) + pi \<and> arctan (y / x) + pi \<le> pi"
      using pi_gt_zero by linarith
    then show ?thesis using neg y by (simp add: arctan2_def)
  next
    case zero
    then show ?thesis using y pi_gt_zero by (simp add: arctan2_def)
  qed
qed

lemma cross_swap_norm: "linalg_norm (cross b a) = linalg_norm (cross a b)"
  by (simp add: linalg_norm_def cross_def algebra_simps)

lemma matmul1_commute: "matmul1 a b = matmul1 b a"
proof -
  have "map2 (*) a b = map2 (*) b a"
  proof (induction a arbitrary: b)
    case Nil
    then show ?case by simp
  next
    case (Cons x xs)
    then show ?case by (cases b) (simp_all add: mult.commute)
  qed
  then show ?thesis by (simp add: matmul1_def)
qed

lemma sqrt_sixteen: "sqrt 16 = 4"
proof -
  have "sqrt (4\<^sup>2) = 4" by simp
  then show ?thesis by simp
qed

section \<open>Facts about the Matern-3/2 argument\<close>

lemma Matern32_r_prescaled:
  "Matern32_r 1 (map (\<lambda>x. x / s) x1) (map (\<lambda>x. x / s) x2) = Matern32_r s x1 x2"
proof -
  have "map (\<lambda>d. \<bar>d / 1\<bar>) (map2 (-) (map (\<lambda>x. x / s) x1) (map (\<lambda>x. x / s) x2))
      = map (\<lambda>d. \<bar>d / s\<bar>) (map2 (-) x1 x2)"
    by (simp add: zip_map_map split_def diff_divide_distrib [symmetric])
  then show ?thesis by (simp only: Matern32_r_def)
qed

section \<open>Linear algebra on lists\<close>

lemma dot_append:
  "length u1 = length v1 \<Longrightarrow> dot (u1 @ u2) (v1 @ v2) = dot u1 v1 + dot u2 v2"
  by (simp add: dot_def)

lemma dot_zeros_left: "dot (replicate n 0) v = 0"
proof (induction n arbitrary: v)
  case 0
  then show ?case by (simp add: dot_def)
next
  case (Suc n)
  then show ?case by (cases v) (simp_all add: dot_def)
qed

lemma length_matvec: "length (matvec A v) = length A"
  by (simp add: matvec_def)

lemma matvec_block_diag:
  assumes "list_all (\<lambda>row. length row = length v1) A"
    and "list_all (\<lambda>row. length row = length v2) B"
  shows "matvec (block_diag (length v1) (length v2) A B) (v1 @ v2) = matvec A v1 @ matvec B v2"
proof -
  have a: "map (\<lambda>row. dot (row @ replicate (length v2) 0) (v1 @ v2)) A = map (\<lambda>row. dot row v1) A"
    using assms(1) by (induction A) (simp_all add: dot_append dot_zeros_left)
  have "\<And>row. dot (replicate (length v1) 0 @ row) (v1 @ v2) = dot row v2"
    by (simp add: dot_append dot_zeros_left)
  then have b: "map (\<lambda>row. dot (replicate (length v1) 0 @ row) (v1 @ v2)) B = map (\<lambda>row. dot row v2) B"
    by simp
  show ?thesis
    by (simp add: matvec_def block_diag_def o_def a b)
qed

lemma dot_scaled:
  "dot (map (\<lambda>a. x * a) u) (map (\<lambda>b. y * b) v) = x * y * dot u v"
proof (induction u arbitrary: v)
  case Nil
  then show ?case by (simp add: dot_def)
next
  case (Cons a u)
  show ?case
  proof (cases v)
    case Nil
    then show ?thesis by (simp add: dot_def)
  next
    case (Cons b w)
    have "dot (map (\<lambda>a. x * a) u) (map (\<lambda>b. y * b) w) = x * y * dot u w"
      by (rule Cons.IH)
    then show ?thesis using Cons by (simp add: dot_def algebra_simps)
  qed
qed

lemma kron_vec_Cons: "kron_vec (x # u) v = map (\<lambda>y. x * y) v @ kron_vec u v"
  by (simp add: kron_vec_def)

lemma kron_vec_Nil: "kron_vec [] v = []"
  by (simp add: kron_vec_def)

lemma length_kron_vec: "length (kron_vec u v) = length u * length v"
  by (induction u) (simp_all add: kron_vec_Cons kron_vec_Nil)

lemma dot_kron_vec:
  "length u1 = length v1 \<Longrightarrow> length u2 = length v2 \<Longrightarrow>
     dot (kron_vec u1 u2) (kron_vec v1 v2) = dot u1 v1 * dot u2 v2"
proof (induction u1 v1 rule: list_induct2)
  case Nil
  then show ?case by (simp add: kron_vec_Nil dot_def)
next
  case (Cons x u1 y v1)
  have "dot (kron_vec (x # u1) u2) (kron_vec (y # v1) v2)
      = dot (map (\<lambda>a. x * a) u2) (map (\<lambda>b. y * b) v2) + dot (kron_vec u1 u2) (kron_vec v1 v2)"
    using Cons.prems by (simp add: kron_vec_Cons dot_append)
  also have "\<dots> = x * y * dot u2 v2 + dot u1 v1 * dot u2 v2"
    using Cons by (simp add: dot_scaled)
  also have "\<dots> = dot (x # u1) (y # v1) * dot u2 v2"
    by (simp add: dot_def algebra_simps)
  finally show ?case .
qed

lemma kron_vec_maps:
  "kron_vec (map f A) (map g B) = concat (map (\<lambda>a. map (\<lambda>b. f a * g b) B) A)"
  by (simp add: kron_vec_def o_def)

lemma matvec_kron_mat:
  assumes "list_all (\<lambda>row. length row = length v1) A"
    and "list_all (\<lambda>row. length row = length v2) B"
  shows "matvec (kron_mat A B) (kron_vec v1 v2) = kron_vec (matvec A v1) (matvec B v2)"
proof -
  have inner: "map (\<lambda>rowB. dot (kron_vec rowA rowB) (kron_vec v1 v2)) B
      = map (\<lambda>rowB. dot rowA v1 * dot rowB v2) B" if "length rowA = length v1" for rowA
    using assms(2) that by (induction B) (simp_all add: dot_kron_vec)
  have outer: "map (\<lambda>rowA. map (\<lambda>rowB. dot (kron_vec rowA rowB) (kron_vec v1 v2)) B) A
      = map (\<lambda>rowA. map (\<lambda>rowB. dot rowA v1 * dot rowB v2) B) A"
    using assms(1) by (induction A) (simp_all add: inner)
  have "matvec (kron_mat A B) (kron_vec v1 v2)
      = concat (map (\<lambda>rowA. map (\<lambda>rowB. dot (kron_vec rowA rowB) (kron_vec v1 v2)) B) A)"
    by (simp add: matvec_def kron_mat_def map_concat o_def)
  also have "\<dots> = concat (map (\<lambda>rowA. map (\<lambda>rowB. dot rowA v1 * dot rowB v2) B) A)"
    by (simp only: outer)
  also have "\<dots> = kron_vec (matvec A v1) (matvec B v2)"
    by (simp add: matvec_def kron_vec_maps)
  finally show ?thesis .
qed

section \<open>Propagation through sums and products of blocks\<close>

lemma propagate_Cons: "propagate (A # As) v = propagate As (matvec A v)"
  by (simp add: propagate_def)

lemma propagate_Nil: "propagate [] v = v"
  by (simp add: propagate_def)

lemma propagate_sum_blocks:
  assumes "length bs1 = length bs2"
    and "list_all (wf_block (length v1)) bs1" and "list_all (wf_block (length v2)) bs2"
  shows "propagate (map propagation (map2 sum_block bs1 bs2)) (v1 @ v2)
       = propagate (map propagation bs1) v1 @ propagate (map propagation bs2) v2"
  using assms
proof (induction bs1 bs2 arbitrary: v1 v2 rule: list_induct2)
  case Nil
  then show ?case by (simp add: propagate_Nil)
next
  case (Cons b1 bs1 b2 bs2)
  have w1: "wf_block (length v1) b1" and w2: "wf_block (length v2) b2"
    using Cons.prems by simp_all
  have step: "matvec (propagation (sum_block b1 b2)) (v1 @ v2)
      = matvec (propagation b1) v1 @ matvec (propagation b2) v2"
    using w1 w2 matvec_block_diag [of v1 "propagation b1" v2 "propagation b2"]
    by (simp add: sum_block_def rank_def wf_block_def)
  have l1: "length (matvec (propagation b1) v1) = length v1"
    using w1 by (simp add: length_matvec wf_block_def)
  have l2: "length (matvec (propagation b2) v2) = length v2"
    using w2 by (simp add: length_matvec wf_block_def)
  have "propagate (map propagation (map2 sum_block bs1 bs2))
          (matvec (propagation b1) v1 @ matvec (propagation b2) v2)
      = propagate (map propagation bs1) (matvec (propagation b1) v1)
        @ propagate (map propagation bs2) (matvec (propagation b2) v2)"
    using Cons.prems by (intro Cons.IH) (simp_all add: l1 l2)
  then show ?case by (simp add: propagate_Cons step)
qed

lemma length_propagate:
  "list_all (wf_block (length v)) bs \<Longrightarrow> length (propagate (map propagation bs) v) = length v"
proof (induction bs arbitrary: v)
  case Nil
  then show ?case by (simp add: propagate_Nil)
next
  case (Cons b bs)
  then have l: "length (matvec (propagation b) v) = length v"
    by (simp add: length_matvec wf_block_def)
  with Cons.prems have "list_all (wf_block (length (matvec (propagation b) v))) bs" by simp
  from Cons.IH [OF this] show ?case by (simp add: propagate_Cons l)
qed

lemma propagate_product_blocks:
  assumes "length bs1 = length bs2"
    and "list_all (wf_block (length v1)) bs1" and "list_all (wf_block (length v2)) bs2"
  shows "propagate (map propagation (map2 product_block bs1 bs2)) (kron_vec v1 v2)
       = kron_vec (propagate (map propagation bs1) v1) (propagate (map propagation bs2) v2)"
  using assms
proof (induction bs1 bs2 arbitrary: v1 v2 rule: list_induct2)
  case Nil
  then show ?case by (simp add: propagate_Nil)
next
  case (Cons b1 bs1 b2 bs2)
  have w1: "wf_block (length v1) b1" and w2: "wf_block (length v2) b2"
    using Cons.prems by simp_all
  have step: "matvec (propagation (product_block b1 b2)) (kron_vec v1 v2)
      = kron_vec (matvec (propagation b1) v1) (matvec (propagation b2) v2)"
    using w1 w2 matvec_kron_mat [of v1 "propagation b1" v2 "propagation b2"]
    by (simp add: product_block_def wf_block_def)
  have l1: "length (matvec (propagation b1) v1) = length v1"
    using w1 by (simp add: length_matvec wf_block_def)
  have l2: "length (matvec (propagation b2) v2) = length v2"
    using w2 by (simp add: length_matvec wf_block_def)
  have "propagate (map propagation (map2 product_block bs1 bs2))
          (kron_vec (matvec (propagation b1) v1) (matvec (propagation b2) v2))
      = kron_vec (propagate (map propagation bs1) (matvec (propagation b1) v1))
          (propagate (map propagation bs2) (matvec (propagation b2) v2))"
    using Cons.prems by (intro Cons.IH) (simp_all add: l1 l2)
  then show ?case by (simp add: propagate_Cons step)
qed

lemma between_map2:
  assumes "i \<le> length rep1" and "length rep1 = length rep2"
  shows "between (map2 f rep1 rep2) j i = map2 f (between rep1 j i) (between rep2 j i)"
proof -
  have "map (\<lambda>k. map2 f rep1 rep2 ! k) [Suc j..<i] = map (\<lambda>k. f (rep1 ! k) (rep2 ! k)) [Suc j..<i]"
    using assms by (intro map_cong) simp_all
  also have "\<dots> = map2 f (map (\<lambda>k. rep1 ! k) [Suc j..<i]) (map (\<lambda>k. rep2 ! k) [Suc j..<i])"
    by (simp add: zip_map_map zip_same_conv_map o_def)
  finally show ?thesis by (simp only: between_def)
qed

lemma length_between: "length (between rep j i) = i - Suc j"
  by (simp add: between_def)

lemma wf_between:
  "wf_rep r rep \<Longrightarrow> i \<le> length rep \<Longrightarrow> list_all (wf_block r) (between rep j i)"
  by (auto simp: wf_rep_def between_def list_all_iff)

lemma wf_rep_nth: "wf_rep r rep \<Longrightarrow> k < length rep \<Longrightarrow> wf_block r (rep ! k)"
  by (simp add: wf_rep_def list_all_length)

lemma lower_entry_sum:
  assumes w1: "wf_rep r1 rep1" and w2: "wf_rep r2 rep2"
    and len: "length rep1 = length rep2" and i: "i < length rep1" and j: "j < i"
  shows "lower_entry (sum_rep rep1 rep2) i j = lower_entry rep1 i j + lower_entry rep2 i j"
proof -
  have bi1: "wf_block r1 (rep1 ! i)" and bj1: "wf_block r1 (rep1 ! j)"
    using w1 i j by (simp_all add: wf_rep_nth)
  have bi2: "wf_block r2 (rep2 ! i)" and bj2: "wf_block r2 (rep2 ! j)"
    using w2 i j len by (simp_all add: wf_rep_nth)
  have q1: "length (right_factor (rep1 ! j)) = r1" and q2: "length (right_factor (rep2 ! j)) = r2"
    using bj1 bj2 by (simp_all add: wf_block_def)
  have btw1: "list_all (wf_block (length (right_factor (rep1 ! j)))) (between rep1 j i)"
    using wf_between [OF w1, of i j] i by (simp add: q1)
  have btw2: "list_all (wf_block (length (right_factor (rep2 ! j)))) (between rep2 j i)"
    using wf_between [OF w2, of i j] i len by (simp add: q2)
  have pg: "propagate (map propagation (between (sum_rep rep1 rep2) j i))
                (right_factor (rep1 ! j) @ right_factor (rep2 ! j))
      = propagate (map propagation (between rep1 j i)) (right_factor (rep1 ! j))
        @ propagate (map propagation (between rep2 j i)) (right_factor (rep2 ! j))"
  proof -
    have "between (sum_rep rep1 rep2) j i = map2 sum_block (between rep1 j i) (between rep2 j i)"
      unfolding sum_rep_def using i len by (intro between_map2) simp_all
    moreover have "length (between rep1 j i) = length (between rep2 j i)"
      by (simp add: length_between)
    ultimately show ?thesis
      using propagate_sum_blocks [OF _ btw1 btw2] by simp
  qed
  have lp: "length (propagate (map propagation (between rep1 j i)) (right_factor (rep1 ! j)))
      = length (left_factor (rep1 ! i))"
    using length_propagate [OF btw1] bi1 by (simp add: q1 wf_block_def)
  have nth_i: "sum_rep rep1 rep2 ! i = sum_block (rep1 ! i) (rep2 ! i)"
    and nth_j: "sum_rep rep1 rep2 ! j = sum_block (rep1 ! j) (rep2 ! j)"
    using i j len by (simp_all add: sum_rep_def)
  show ?thesis
    by (simp add: lower_entry_def nth_i nth_j sum_block_def pg dot_append lp)
qed

lemma lower_entry_product:
  assumes w1: "wf_rep r1 rep1" and w2: "wf_rep r2 rep2"
    and len: "length rep1 = length rep2" and i: "i < length rep1" and j: "j < i"
  shows "lower_entry (product_rep rep1 rep2) i j = lower_entry rep1 i j * lower_entry rep2 i j"
proof -
  have bi1: "wf_block r1 (rep1 ! i)" and bj1: "wf_block r1 (rep1 ! j)"
    using w1 i j by (simp_all add: wf_rep_nth)
  have bi2: "wf_block r2 (rep2 ! i)" and bj2: "wf_block r2 (rep2 ! j)"
    using w2 i j len by (simp_all add: wf_rep_nth)
  have q1: "length (right_factor (rep1 ! j)) = r1" and q2: "length (right_factor (rep2 ! j)) = r2"
    using bj1 bj2 by (simp_all add: wf_block_def)
  have btw1: "list_all (wf_block (length (right_factor (rep1 ! j)))) (between rep1 j i)"
    using wf_between [OF w1, of i j] i by (simp add: q1)
  have btw2: "list_all (wf_block (length (right_factor (rep2 ! j)))) (between rep2 j i)"
    using wf_between [OF w2, of i j] i len by (simp add: q2)
  have pg: "propagate (map propagation (between (product_rep rep1 rep2) j i))
                (kron_vec (right_factor (rep1 ! j)) (right_factor (rep2 ! j)))
      = kron_vec (propagate (map propagation (between rep1 j i)) (right_factor (rep1 ! j)))
          (propagate (map propagation (between rep2 j i)) (right_factor (rep2 ! j)))"
  proof -
    have "between (product_rep rep1 rep2) j i
        = map2 product_block (between rep1 j i) (between rep2 j i)"
      unfolding product_rep_def using i len by (intro between_map2) simp_all
    moreover have "length (between rep1 j i) = length (between rep2 j i)"
      by (simp add: length_between)
    ultimately show ?thesis
      using propagate_product_blocks [OF _ btw1 btw2] by simp
  qed
  have lp1: "length (left_factor (rep1 ! i))
      = length (propagate (map propagation (between rep1 j i)) (right_factor (rep1 ! j)))"
    using length_propagate [OF btw1] bi1 by (simp add: q1 wf_block_def)
  have lp2: "length (left_factor (rep2 ! i))
      = length (propagate (map propagation (between rep2 j i)) (right_factor (rep2 ! j)))"
    using length_propagate [OF btw2] bi2 by (simp add: q2 wf_block_def)
  have nth_i: "product_rep rep1 rep2 ! i = product_block (rep1 ! i) (rep2 ! i)"
    and nth_j: "product_rep rep1 rep2 ! j = product_block (rep1 ! j) (rep2 ! j)"
    using i j len by (simp_all add: product_rep_def)
  show ?thesis
    by (simp add: lower_entry_def nth_i nth_j product_block_def pg dot_kron_vec [OF lp1 lp2])
qed

lemma implied_sum_rep:
  assumes "wf_rep r1 rep1" and "wf_rep r2 rep2"
    and "length rep1 = length rep2" and "i < length rep1" and "j < length rep1"
  shows "implied (sum_rep rep1 rep2) i j = implied rep1 i j + implied rep2 i j"
proof -
  consider (eq) "i = j" | (lo) "j < i" | (up) "i < j" by linarith
  then show ?thesis
  proof cases
    case eq
    then show ?thesis using assms by (simp add: implied_def sum_rep_def sum_block_def)
  next
    case lo
    then show ?thesis using assms by (simp add: implied_def lower_entry_sum)
  next
    case up
    then show ?thesis using assms by (simp add: implied_def lower_entry_sum)
  qed
qed

lemma implied_product_rep:
  assumes "wf_rep r1 rep1" and "wf_rep r2 rep2"
    and "length rep1 = length rep2" and "i < length rep1" and "j < length rep1"
  shows "implied (product_rep rep1 rep2) i j = implied rep1 i j * implied rep2 i j"
proof -
  consider (eq) "i = j" | (lo) "j < i" | (up) "i < j" by linarith
  then show ?thesis
  proof cases
    case eq
    then show ?thesis using assms by (simp add: implied_def product_rep_def product_block_def)
  next
    case lo
    then show ?thesis using assms by (simp add: implied_def lower_entry_product)
  next
    case up
    then show ?thesis using assms by (simp add: implied_def lower_entry_product)
  qed
qed

section \<open>Primitive terms\<close>

lemma primitive_okD:
  assumes "primitive_ok k e xs"
  shows "wf_rep (rank (e xs 0)) (represent (Primitive k e) xs)"
    and "i < length xs \<Longrightarrow> j < length xs \<Longrightarrow>
         implied (represent (Primitive k e) xs) i j = k (xs ! i) (xs ! j)"
  using assms by (simp_all add: primitive_ok_def list_all_iff)

lemma min_ok: "primitive_ok min_kernel min_blocks [1, 2, 3]"
  by (simp add: primitive_ok_def wf_rep_def wf_block_def rank_def min_blocks_def min_kernel_def
      implied_def lower_entry_def between_def propagate_def matvec_def dot_def
      upt_rec numeral_eq_Suc)

lemma exp_ok: "primitive_ok exp_kernel exp_blocks [1, 2, 3]"
  by (simp add: primitive_ok_def wf_rep_def wf_block_def rank_def exp_blocks_def exp_kernel_def
      implied_def lower_entry_def between_def propagate_def matvec_def dot_def
      upt_rec numeral_eq_Suc)

section \<open>The great-circle distance: errors, symmetry and range\<close>

text \<open>
  Claim C8, as amended.  The guard of \<^verbatim>\<open>GreatCircleDistance.distance\<close> looks at
  the shapes only: the call raises \<^verbatim>\<open>ValueError\<close> exactly when the shape of
  \<open>X1\<close> or of \<open>X2\<close> is not \<^verbatim>\<open>(3,)\<close>, and it returns a value exactly when
  both shapes are \<^verbatim>\<open>(3,)\<close>, whatever the length of the two vectors.
\<close>

theorem distance_error_iff:
  "(distance X1 X2 = Inl ValueError \<longleftrightarrow> shape X1 \<noteq> [3] \<or> shape X2 \<noteq> [3]) \<and>
   ((\<exists>d. distance X1 X2 = Inr d) \<longleftrightarrow> shape X1 = [3] \<and> shape X2 = [3])"
  by (auto simp: distance_def)

text \<open>
  The amended claim at concrete inputs: a 2-vector is refused, and two 3-vectors of
  length 2 are accepted.
\<close>

theorem distance_error_iff_witness:
  "shape \<lparr>shape = [2], data = [1, 0]\<rparr> \<noteq> [3] \<and>
   distance \<lparr>shape = [2], data = [1, 0]\<rparr> (vec3 1 0 0) = Inl ValueError \<and>
   shape (vec3 2 0 0) = [3] \<and> shape (vec3 0 2 0) = [3] \<and>
   (\<exists>d. distance (vec3 2 0 0) (vec3 0 2 0) = Inr d)"
  using distance_error_iff [of "\<lparr>shape = [2], data = [1, 0]\<rparr>" "vec3 1 0 0"]
    distance_error_iff [of "vec3 2 0 0" "vec3 0 2 0"]
  by (simp add: vec3_def)

text \<open>
  Claim C8 as first stated asks for an error on every 3-vector that is not of unit
  length.  The vectors \<open>(2, 0, 0)\<close> and \<open>(0, 2, 0)\<close> have length 2, and the call
  returns the right angle between them instead of raising.
\<close>

theorem distance_non_unit_counterexample:
  "linalg_norm (data (vec3 2 0 0)) \<noteq> 1 \<and> linalg_norm (data (vec3 0 2 0)) \<noteq> 1 \<and>
   distance (vec3 2 0 0) (vec3 0 2 0) = Inr (pi / 2)"
  by (simp add: distance_def vec3_def linalg_norm_def cross_def matmul1_def arctan2_def
      sqrt_sixteen)

text \<open>
  Claim C10.  On 3-vectors the great-circle distance is symmetric in its two arguments
  and the value it returns lies between \<open>0\<close> and \<open>\<pi>\<close>.  The statement covers every
  pair of arrays of shape \<^verbatim>\<open>(3,)\<close>, the unit vectors among them.
\<close>

theorem distance_symmetric_range:
  "shape X1 = [3] \<Longrightarrow> shape X2 = [3] \<Longrightarrow>
     distance X1 X2 = distance X2 X1 \<and>
     (\<exists>d. distance X1 X2 = Inr d \<and> 0 \<le> d \<and> d \<le> pi)"
proof -
  assume s: "shape X1 = [3]" "shape X2 = [3]"
  have sym: "distance X1 X2 = distance X2 X1"
    using s by (simp add: distance_def cross_swap_norm [of "data X1" "data X2"]
        matmul1_commute [of "data X1" "data X2"])
  have "0 \<le> linalg_norm (cross (data X1) (data X2))"
    by (rule linalg_norm_nonneg)
  from arctan2_range_upper [OF this, of "matmul1 (data X1) (data X2)"]
  have "\<exists>d. distance X1 X2 = Inr d \<and> 0 \<le> d \<and> d \<le> pi"
    using s by (simp add: distance_def)
  with sym show ?thesis by blast
qed

text \<open>The unit vectors along the first two axes.\<close>

theorem distance_symmetric_range_witness:
  "shape (vec3 1 0 0) = [3] \<and> shape (vec3 0 1 0) = [3] \<and>
   distance (vec3 1 0 0) (vec3 0 1 0) = distance (vec3 0 1 0) (vec3 1 0 0) \<and>
   (\<exists>d. distance (vec3 1 0 0) (vec3 0 1 0) = Inr d \<and> 0 \<le> d \<and> d \<le> pi)"
proof -
  have a: "shape (vec3 1 0 0) = [3]" and b: "shape (vec3 0 1 0) = [3]"
    by (simp_all add: vec3_def)
  show ?thesis using a b distance_symmetric_range [OF a b] by blast
qed

section \<open>Scaling a Matern-3/2 kernel\<close>

text \<open>
  Claim C9.  For an array \<open>X\<close> of points and a positive scalar \<open>scale\<close>, the
  Matern-3/2 kernel built with that scale and called on \<open>(X, X)\<close> gives the same
  matrix as the kernel built without a scale and called on
  \<open>(X / scale, X / scale)\<close>: the scale parameter acts as a division of the input
  coordinates.
\<close>

theorem Matern32_scale_is_prescaling:
  "0 < scale \<Longrightarrow>
     kernel_call (Matern32_default k) (array_div X scale) (array_div X scale)
       = kernel_call (Matern32 k scale) X X"
  by (simp add: kernel_call_def array_div_def Matern32_default_def Matern32_def
      Matern32_r_prescaled o_def)

text \<open>The scale \<open>1.5\<close> of the tutorial on two points with three coordinates.\<close>

theorem Matern32_scale_is_prescaling_witness:
  "(0::real) < 3 / 2 \<and>
   kernel_call (Matern32_default matern32_profile)
       (array_div [[0, 1, 2], [3, 5, 1]] (3 / 2)) (array_div [[0, 1, 2], [3, 5, 1]] (3 / 2))
     = kernel_call (Matern32 matern32_profile (3 / 2)) [[0, 1, 2], [3, 5, 1]] [[0, 1, 2], [3, 5, 1]]"
proof -
  have h: "(0::real) < 3 / 2" by simp
  show ?thesis
    using h Matern32_scale_is_prescaling [OF h, of matern32_profile "[[0, 1, 2], [3, 5, 1]]"]
    by simp
qed

section \<open>Sums and products of quasiseparable terms\<close>

text \<open>
  Claim C3.  Take two quasiseparable primitive terms on an input sequence \<open>xs\<close>: each
  emits blocks of one rank whose implied covariance is the term's closed form.  Then for
  all positions \<open>i\<close> and \<open>j\<close> of the sequence, the covariance entry implied by the
  structured representation of the sum of the two terms is the sum of their closed-form
  values at \<open>(xs ! i, xs ! j)\<close>, and the entry implied by the representation of their
  product is the product of the closed-form values.
\<close>

theorem composition_matches_closed_forms:
  assumes "primitive_ok k1 e1 xs" and "primitive_ok k2 e2 xs"
    and "i < length xs" and "j < length xs"
  shows "implied (represent (Sum (Primitive k1 e1) (Primitive k2 e2)) xs) i j
           = k1 (xs ! i) (xs ! j) + k2 (xs ! i) (xs ! j) \<and>
         implied (represent (Product (Primitive k1 e1) (Primitive k2 e2)) xs) i j
           = k1 (xs ! i) (xs ! j) * k2 (xs ! i) (xs ! j)"
proof -
  let ?r1 = "represent (Primitive k1 e1) xs" and ?r2 = "represent (Primitive k2 e2) xs"
  have w1: "wf_rep (rank (e1 xs 0)) ?r1" and w2: "wf_rep (rank (e2 xs 0)) ?r2"
    using assms(1,2) by (simp_all only: primitive_okD(1))
  have len: "length ?r1 = length ?r2" by simp
  have i: "i < length ?r1" and j: "j < length ?r1" using assms(3,4) by simp_all
  have v1: "implied ?r1 i j = k1 (xs ! i) (xs ! j)"
    using primitive_okD(2) [OF assms(1) assms(3) assms(4)] .
  have v2: "implied ?r2 i j = k2 (xs ! i) (xs ! j)"
    using primitive_okD(2) [OF assms(2) assms(3) assms(4)] .
  have "implied (sum_rep ?r1 ?r2) i j = k1 (xs ! i) (xs ! j) + k2 (xs ! i) (xs ! j)"
    using implied_sum_rep [OF w1 w2 len i j] v1 v2 by simp
  moreover have "implied (product_rep ?r1 ?r2) i j = k1 (xs ! i) (xs ! j) * k2 (xs ! i) (xs ! j)"
    using implied_product_rep [OF w1 w2 len i j] v1 v2 by simp
  ultimately show ?thesis by simp
qed

text \<open>
  The random-walk term and the exponential term on the inputs \<open>1, 2, 3\<close>, at the
  corner entry \<open>(2, 0)\<close>, where one propagation matrix lies between the two positions:
  the closed forms are \<open>min 3 1 = 1\<close> and \<open>(1/2)\<^sup>2 = 1/4\<close>.
\<close>

theorem composition_matches_closed_forms_witness:
  "primitive_ok min_kernel min_blocks [1, 2, 3] \<and>
   primitive_ok exp_kernel exp_blocks [1, 2, 3] \<and>
   (2::nat) < length [1, 2, 3 :: real] \<and> (0::nat) < length [1, 2, 3 :: real] \<and>
   implied (represent (Sum (Primitive min_kernel min_blocks) (Primitive exp_kernel exp_blocks))
              [1, 2, 3]) 2 0 = 5 / 4 \<and>
   implied (represent (Product (Primitive min_kernel min_blocks) (Primitive exp_kernel exp_blocks))
              [1, 2, 3]) 2 0 = 1 / 4"
proof -
  have i: "(2::nat) < length [1, 2, 3 :: real]" and j: "(0::nat) < length [1, 2, 3 :: real]"
    by simp_all
  show ?thesis
    using min_ok exp_ok i j composition_matches_closed_forms [OF min_ok exp_ok i j]
    by (simp add: min_kernel_def exp_kernel_def power2_eq_square)
qed

end
